theory Spec2Isabelle
  imports Main "HOL-Library.Sublist" "HOL-Library.AList"
begin

section \<open>Strings\<close>

text \<open>
  Python strings are modelled as \<open>string\<close>, one \<open>char\<close> per code point, for the code
  points 0 to 255 (the range a Latin-1 decoding produces). The predicates below are
  Python's own on that range: \<open>str.isspace\<close> (which is also what \<open>\s\<close> matches in a
  \<open>re\<close> pattern on \<open>str\<close>), \<open>str.lower\<close>, \<open>str.strip\<close>, \<open>str.startswith\<close>, the
  operator \<open>in\<close> on strings, and \<open>str.splitlines\<close>.
\<close>

definition isspace :: "char \<Rightarrow> bool" where
  "isspace c = (c \<in> set [CHR 0x09, CHR 0x0A, CHR 0x0B, CHR 0x0C, CHR 0x0D,
                          CHR 0x1C, CHR 0x1D, CHR 0x1E, CHR 0x1F, CHR 0x20,
                          CHR 0x85, CHR 0xA0])"

definition lstrip :: "string \<Rightarrow> string" where
  "lstrip s = dropWhile isspace s"

definition rstrip :: "string \<Rightarrow> string" where
  "rstrip s = rev (dropWhile isspace (rev s))"

definition strip :: "string \<Rightarrow> string" where
  "strip s = rstrip (lstrip s)"

definition startswith :: "string \<Rightarrow> string \<Rightarrow> bool" where
  "startswith s p = prefix p s"

definition char_lower :: "char \<Rightarrow> char" where
  "char_lower c =
     (let n = of_char c :: nat in
      if (0x41 \<le> n \<and> n \<le> 0x5A) \<or> (0xC0 \<le> n \<and> n \<le> 0xDE \<and> n \<noteq> 0xD7)
      then char_of (n + 0x20) else c)"

definition lower :: "string \<Rightarrow> string" where
  "lower s = map char_lower s"

text \<open>\<open>str_in sub s\<close> is Python's \<open>sub in s\<close>: \<open>sub\<close> occurs in \<open>s\<close> as a contiguous run.\<close>

fun str_in :: "string \<Rightarrow> string \<Rightarrow> bool" where
  "str_in sub [] = (sub = [])"
| "str_in sub (c # cs) = (prefix sub (c # cs) \<or> str_in sub cs)"

definition is_linebreak :: "char \<Rightarrow> bool" where
  "is_linebreak c = (c \<in> set [CHR 0x0A, CHR 0x0B, CHR 0x0C, CHR 0x0D,
                               CHR 0x1C, CHR 0x1D, CHR 0x1E, CHR 0x85])"

text \<open>
  \<open>str.splitlines()\<close>: the line breaks are removed, a carriage return followed by a line
  feed is one break, and a break at the very end opens no further line.
\<close>

fun splitlines :: "string \<Rightarrow> string list" where
  "splitlines [] = []"
| "splitlines [c] = (if is_linebreak c then [[]] else [[c]])"
| "splitlines (c # d # cs) =
     (if c = CHR 0x0D \<and> d = CHR 0x0A then [] # splitlines cs
      else if is_linebreak c then [] # splitlines (d # cs)
      else (case splitlines (d # cs) of
              [] \<Rightarrow> [[c]]
            | l # ls \<Rightarrow> (c # l) # ls))"

section \<open>Errors\<close>

type_synonym path = string

text \<open>
  The messages of \<open>ParseError\<close> are kept as constructors that carry the values the
  source interpolates into the text:
  \<^item> \<open>EmptyDescription p\<close>: "Descrizione vuota in p";
  \<^item> \<open>EmptyUrl d p\<close>: "URL vuoto per 'd' in p";
  \<^item> \<open>InvalidUrl u d p\<close>: "URL non valido 'u' per 'd' in p";
  \<^item> \<open>NotAFile p\<close>: "Il path specificato non e un file: p";
  \<^item> \<open>CannotRead p\<close>: "Impossibile leggere il file p: ...";
  \<^item> \<open>ReadError p\<close>: "Errore nella lettura del file p: ...";
  \<^item> \<open>ErrorAtLine n p e\<close>: "Errore alla riga n di p: e";
  \<^item> \<open>InvalidFormat n p l\<close>: "Formato non valido alla riga n di p: l";
  \<^item> \<open>NoParser p\<close>: "Nessun parser disponibile per il file: p".
\<close>

datatype parse_error =
    EmptyDescription path
  | EmptyUrl string path
  | InvalidUrl string string path
  | NotAFile path
  | CannotRead path
  | ReadError path
  | ErrorAtLine nat path parse_error
  | InvalidFormat nat path string
  | NoParser path

datatype error =
    FileNotFoundError path
  | NotADirectoryError path
  | ParseError parse_error
  | ValueError
  | PermissionError path
  | UnicodeEncodeError
  | RuntimeError error

section \<open>DokkEntry\<close>

record DokkEntry =
  description :: string
  url :: string
  file_path :: path

definition DokkEntry_validate :: "DokkEntry \<Rightarrow> error + unit" where
  "DokkEntry_validate self =
     (if description self = [] then
        Inl (ParseError (EmptyDescription (file_path self)))
      else if url self = [] then
        Inl (ParseError (EmptyUrl (description self) (file_path self)))
      else if \<not> (startswith (url self) ''http://'' \<or> startswith (url self) ''https://'') then
        Inl (ParseError (InvalidUrl (url self) (description self) (file_path self)))
      else Inr ())"

text \<open>The constructor \<open>DokkEntry(description, url, file_path)\<close>.\<close>

definition DokkEntry_init :: "string \<Rightarrow> string \<Rightarrow> path \<Rightarrow> error + DokkEntry" where
  "DokkEntry_init d u p =
     (let self = \<lparr>description = strip d, url = strip u, file_path = p\<rparr>
      in case DokkEntry_validate self of
           Inl e \<Rightarrow> Inl e
         | Inr _ \<Rightarrow> Inr self)"

section \<open>The filesystem and the standard output\<close>

text \<open>
  The source reads the filesystem through \<open>pathlib\<close> and \<open>open\<close>; scanning never
  writes to it. It is a record of what those calls answer: \<open>Path.cwd()\<close>, whether
  \<open>Path.exists()\<close>, \<open>Path.is_file()\<close> and \<open>Path.is_dir()\<close> return \<open>True\<close>,
  \<open>Path.glob(pattern)\<close> (the paths in the order \<open>glob\<close> yields them), and reading a
  file as text, first as UTF-8 and then as Latin-1. Listing a directory that exists is
  taken to succeed.

  The three tests of \<open>pathlib\<close> call \<open>stat\<close>. They return \<open>False\<close> when \<open>stat\<close> fails
  because the path is missing, and pass every other error of \<open>stat\<close> on, such as
  \<open>PermissionError\<close>: \<open>stat_error\<close> is that error, for a path that has one.

  The record also says what the standard output does with a warning of the scanner:
  \<open>print_error p e\<close> is the exception that \<open>print\<close> raises for the warning about the
  file \<open>p\<close> and its error \<open>e\<close> (such as \<open>UnicodeEncodeError\<close> when the output cannot
  encode the text), or \<open>None\<close> when the warning is written.
\<close>

datatype read_result = Content string | UnicodeDecodeError | OtherError

record filesystem =
  cwd :: path
  path_exists :: "path \<Rightarrow> bool"
  path_is_file :: "path \<Rightarrow> bool"
  path_is_dir :: "path \<Rightarrow> bool"
  path_glob :: "path \<Rightarrow> string \<Rightarrow> path list"
  read_utf8 :: "path \<Rightarrow> read_result"
  read_latin1 :: "path \<Rightarrow> string option"
  stat_error :: "path \<Rightarrow> error option"
  print_error :: "path \<Rightarrow> error \<Rightarrow> error option"

text \<open>\<open>Path.exists()\<close>, \<open>Path.is_file()\<close> and \<open>Path.is_dir()\<close>, with the error they pass on.\<close>

definition Path_exists :: "filesystem \<Rightarrow> path \<Rightarrow> error + bool" where
  "Path_exists fs p =
     (if path_exists fs p then Inr True
      else (case stat_error fs p of Some e \<Rightarrow> Inl e | None \<Rightarrow> Inr False))"

definition Path_is_file :: "filesystem \<Rightarrow> path \<Rightarrow> error + bool" where
  "Path_is_file fs p =
     (if path_is_file fs p then Inr True
      else (case stat_error fs p of Some e \<Rightarrow> Inl e | None \<Rightarrow> Inr False))"

definition Path_is_dir :: "filesystem \<Rightarrow> path \<Rightarrow> error + bool" where
  "Path_is_dir fs p =
     (if path_is_dir fs p then Inr True
      else (case stat_error fs p of Some e \<Rightarrow> Inl e | None \<Rightarrow> Inr False))"

text \<open>
  \<open>PurePath.name\<close> and \<open>PurePath.suffix\<close> on a path written with \<open>/\<close>: the name is the
  last component, the suffix starts at the last dot of the name, unless that dot is the
  first or the last character of the name.
\<close>

definition path_name :: "path \<Rightarrow> string" where
  "path_name p = rev (takeWhile (\<lambda>c. c \<noteq> CHR ''/'') (rev p))"

definition path_suffix :: "path \<Rightarrow> string" where
  "path_suffix p =
     (let name = path_name p;
          ext = rev (takeWhile (\<lambda>c. c \<noteq> CHR ''.'') (rev name))
      in if CHR ''.'' \<in> set name \<and> ext \<noteq> [] \<and> length ext + 1 < length name
         then CHR ''.'' # ext else [])"

section \<open>StandardDokkParser\<close>

text \<open>
  \<open>PATTERN = re.compile(r'"([^"]+)"\s*->\s*"([^"]+)"')\<close>, used through
  \<open>PATTERN.match(line)\<close>, which matches at the start of the line and says nothing about
  what follows the match.

  \<open>quoted s\<close> matches \<open>"([^"]+)"\<close> at the start of \<open>s\<close> and returns the group and the
  text after the closing quote. The group is the longest run without a quote, and no
  shorter run can match, since the character after it would have to be a quote.
  \<open>PATTERN_match_end\<close> returns the two groups and the text after the match;
  \<open>PATTERN_match\<close> is \<open>match.groups()\<close>.
\<close>

definition quoted :: "string \<Rightarrow> (string \<times> string) option" where
  "quoted s =
     (case s of
        [] \<Rightarrow> None
      | c # cs \<Rightarrow>
          if c \<noteq> CHR 0x22 then None
          else let g = takeWhile (\<lambda>x. x \<noteq> CHR 0x22) cs;
                   r = dropWhile (\<lambda>x. x \<noteq> CHR 0x22) cs
               in if g = [] \<or> r = [] then None else Some (g, tl r))"

definition PATTERN_match_end :: "string \<Rightarrow> (string \<times> string \<times> string) option" where
  "PATTERN_match_end line =
     (case quoted line of
        None \<Rightarrow> None
      | Some (d, r1) \<Rightarrow>
          let r2 = dropWhile isspace r1
          in if \<not> prefix ''->'' r2 then None
             else (case quoted (dropWhile isspace (drop 2 r2)) of
                     None \<Rightarrow> None
                   | Some (u, r3) \<Rightarrow> Some (d, u, r3)))"

definition PATTERN_match :: "string \<Rightarrow> (string \<times> string) option" where
  "PATTERN_match line = map_option (\<lambda>(d, u, r). (d, u)) (PATTERN_match_end line)"

text \<open>
  The reading "the whole line is the pattern, with nothing after it", for comparison
  with \<open>PATTERN_match\<close>.
\<close>

definition PATTERN_fullmatch :: "string \<Rightarrow> bool" where
  "PATTERN_fullmatch line =
     (case PATTERN_match_end line of None \<Rightarrow> False | Some (d, u, r) \<Rightarrow> r = [])"

definition StandardDokkParser_can_handle :: "path \<Rightarrow> bool" where
  "StandardDokkParser_can_handle p = (lower (path_suffix p) = ''.dokk'')"

text \<open>
  The body of the loop of \<open>parse\<close> for one line, \<open>line_number\<close> being the number of
  that line: \<open>Inr None\<close> when the line is skipped (\<open>continue\<close>), \<open>Inr (Some entry)\<close>
  when an entry is appended, \<open>Inl\<close> when the body raises.
\<close>

definition parse_line :: "path \<Rightarrow> nat \<Rightarrow> string \<Rightarrow> error + DokkEntry option" where
  "parse_line p line_number l =
     (let line = strip l
      in if line = [] \<or> startswith line ''#'' then Inr None
         else (case PATTERN_match line of
                 Some (d, u) \<Rightarrow>
                   (case DokkEntry_init d u p of
                      Inr entry \<Rightarrow> Inr (Some entry)
                    | Inl (ParseError e) \<Rightarrow> Inl (ParseError (ErrorAtLine line_number p e))
                    | Inl e \<Rightarrow> Inl e)
               | None \<Rightarrow> Inl (ParseError (InvalidFormat line_number p line))))"

text \<open>
  The loop over \<open>content.splitlines()\<close>: \<open>n\<close> is \<open>line_number\<close> before the line is
  read, \<open>entries\<close> the list built so far.
\<close>

fun parse_lines :: "path \<Rightarrow> nat \<Rightarrow> string list \<Rightarrow> DokkEntry list \<Rightarrow> error + DokkEntry list" where
  "parse_lines p n [] entries = Inr entries"
| "parse_lines p n (l # ls) entries =
     (let line_number = n + 1
      in case parse_line p line_number l of
           Inl e \<Rightarrow> Inl e
         | Inr None \<Rightarrow> parse_lines p line_number ls entries
         | Inr (Some entry) \<Rightarrow> parse_lines p line_number ls (entries @ [entry]))"

text \<open>The two nested \<open>try\<close> blocks that read the file.\<close>

definition read_content :: "filesystem \<Rightarrow> path \<Rightarrow> error + string" where
  "read_content fs p =
     (case read_utf8 fs p of
        Content c \<Rightarrow> Inr c
      | UnicodeDecodeError \<Rightarrow>
          (case read_latin1 fs p of
             Some c \<Rightarrow> Inr c
           | None \<Rightarrow> Inl (ParseError (CannotRead p)))
      | OtherError \<Rightarrow> Inl (ParseError (ReadError p)))"

definition StandardDokkParser_parse :: "filesystem \<Rightarrow> path \<Rightarrow> error + DokkEntry list" where
  "StandardDokkParser_parse fs p =
     (case Path_exists fs p of
        Inl e \<Rightarrow> Inl e
      | Inr ex \<Rightarrow>
          if \<not> ex then Inl (FileNotFoundError p)
          else (case Path_is_file fs p of
                  Inl e \<Rightarrow> Inl e
                | Inr is_file \<Rightarrow>
                    if \<not> is_file then Inl (ParseError (NotAFile p))
                    else (case read_content fs p of
                            Inl e \<Rightarrow> Inl e
                          | Inr content \<Rightarrow> parse_lines p 0 (splitlines content) [])))"

section \<open>DokkParserFactory\<close>

text \<open>
  A parser is what \<open>BaseParser\<close> declares: \<open>can_handle\<close> and \<open>parse\<close>. The factory is
  its list \<open>_parsers\<close>, the parser of highest priority first.
\<close>

record parser =
  can_handle :: "path \<Rightarrow> bool"
  parse :: "filesystem \<Rightarrow> path \<Rightarrow> error + DokkEntry list"

type_synonym DokkParserFactory = "parser list"

definition StandardDokkParser :: parser where
  "StandardDokkParser =
     \<lparr>can_handle = StandardDokkParser_can_handle, parse = StandardDokkParser_parse\<rparr>"

definition DokkParserFactory_init :: DokkParserFactory where
  "DokkParserFactory_init = [StandardDokkParser]"

definition register_parser :: "DokkParserFactory \<Rightarrow> parser \<Rightarrow> DokkParserFactory" where
  "register_parser factory ps = ps # factory"

definition create_parser :: "DokkParserFactory \<Rightarrow> path \<Rightarrow> parser option" where
  "create_parser factory p = find (\<lambda>ps. can_handle ps p) factory"

definition parse_file :: "DokkParserFactory \<Rightarrow> filesystem \<Rightarrow> path \<Rightarrow> error + DokkEntry list" where
  "parse_file factory fs p =
     (case create_parser factory p of
        None \<Rightarrow> Inl (ParseError (NoParser p))
      | Some ps \<Rightarrow> parse ps fs p)"

section \<open>DokkFileScanner\<close>

text \<open>
  The result of a scan is a Python \<open>dict\<close>: an association list in insertion order,
  where storing under a key that is present replaces the value in place
  (\<open>AList.update\<close>). The loop of \<open>scan_directory\<close> catches every exception of
  \<open>parse_file\<close> and prints one warning for the file it skips; \<open>printed\<close> collects the
  warnings as (file, error) in the order they are printed. The \<open>print\<close> stands in the
  handler, outside any \<open>try\<close>: an exception it raises ends the loop and leaves
  \<open>scan_directory\<close>.
\<close>

type_synonym file_entries = "(path \<times> DokkEntry list) list"

fun scan_files ::
  "DokkParserFactory \<Rightarrow> filesystem \<Rightarrow> path list \<Rightarrow> file_entries \<times> (path \<times> error) list \<Rightarrow>
     error + file_entries \<times> (path \<times> error) list" where
  "scan_files factory fs [] (results, printed) = Inr (results, printed)"
| "scan_files factory fs (p # ps) (results, printed) =
     (case parse_file factory fs p of
        Inr entries \<Rightarrow>
          if entries \<noteq> [] then scan_files factory fs ps (AList.update p entries results, printed)
          else scan_files factory fs ps (results, printed)
      | Inl e \<Rightarrow>
          (case print_error fs p e of
             Some raised \<Rightarrow> Inl raised
           | None \<Rightarrow> scan_files factory fs ps (results, printed @ [(p, e)])))"

definition scan_directory ::
  "DokkParserFactory \<Rightarrow> filesystem \<Rightarrow> path \<Rightarrow> bool \<Rightarrow> error + file_entries \<times> (path \<times> error) list" where
  "scan_directory factory fs root_path recursive =
     (case Path_exists fs root_path of
        Inl e \<Rightarrow> Inl e
      | Inr ex \<Rightarrow>
          if \<not> ex then Inl (FileNotFoundError root_path)
          else (case Path_is_dir fs root_path of
                  Inl e \<Rightarrow> Inl e
                | Inr is_dir \<Rightarrow>
                    if \<not> is_dir then Inl (NotADirectoryError root_path)
                    else let pattern = (if recursive then ''**/*.dokk'' else ''*.dokk'')
                         in scan_files factory fs (path_glob fs root_path pattern) ([], [])))"

section \<open>urllib.parse.urlparse\<close>

text \<open>
  \<open>get_statistics\<close> and \<open>validate_all_links\<close> read the fields \<open>scheme\<close> and \<open>netloc\<close> of
  \<open>urlparse(entry.url)\<close>. Both fields are those of \<open>urlsplit\<close> (CPython 3.11), which
  \<^item> strips leading C0 control characters and spaces, and removes every tab, carriage
    return and line feed;
  \<^item> takes the text before the first colon as the scheme, in lower case, when it starts
    with an ASCII letter and consists of scheme characters;
  \<^item> when the rest starts with two slashes, takes the text up to the first of
    \<open>/\<close>, \<open>?\<close>, \<open>#\<close> as the netloc;
  \<^item> raises \<open>ValueError\<close> when only one of the brackets \<open>[\<close>, \<open>]\<close> is in the netloc,
    or when both are and \<open>_check_bracketed_host\<close> rejects the text between them.
  \<open>_check_bracketed_host\<close> rests on the library's parser of IP addresses; it is the
  parameter \<open>bracketed_host_ok\<close>. The last check, \<open>_checknetloc\<close>, raises only when
  NFKC normalisation of the netloc brings in one of \<open>/ ? # @ :\<close>, which no code point
  from 0 to 255 does, so it has no branch here.
\<close>

record ParseResult =
  scheme :: string
  netloc :: string

definition WHATWG_C0_CONTROL_OR_SPACE :: "char \<Rightarrow> bool" where
  "WHATWG_C0_CONTROL_OR_SPACE c = ((of_char c :: nat) \<le> 0x20)"

definition UNSAFE_URL_BYTES_TO_REMOVE :: "char list" where
  "UNSAFE_URL_BYTES_TO_REMOVE = [CHR 0x09, CHR 0x0D, CHR 0x0A]"

definition ascii_alpha :: "char \<Rightarrow> bool" where
  "ascii_alpha c =
     (let n = of_char c :: nat in (0x41 \<le> n \<and> n \<le> 0x5A) \<or> (0x61 \<le> n \<and> n \<le> 0x7A))"

definition scheme_chars :: "char \<Rightarrow> bool" where
  "scheme_chars c =
     (let n = of_char c :: nat
      in ascii_alpha c \<or> (0x30 \<le> n \<and> n \<le> 0x39) \<or> c \<in> set [CHR ''+'', CHR ''-'', CHR ''.''])"

definition splitnetloc :: "string \<Rightarrow> string \<times> string" where
  "splitnetloc s =
     (let delim = (\<lambda>c. c \<in> set [CHR ''/'', CHR ''?'', CHR ''#''])
      in (takeWhile (\<lambda>c. \<not> delim c) s, dropWhile (\<lambda>c. \<not> delim c) s))"

definition bracketed_host :: "string \<Rightarrow> string" where
  "bracketed_host nl =
     takeWhile (\<lambda>c. c \<noteq> CHR '']'') (tl (dropWhile (\<lambda>c. c \<noteq> CHR ''['') nl))"

definition urlparse :: "(string \<Rightarrow> bool) \<Rightarrow> string \<Rightarrow> error + ParseResult" where
  "urlparse bracketed_host_ok u =
     (let u1 = dropWhile WHATWG_C0_CONTROL_OR_SPACE u;
          u2 = filter (\<lambda>c. c \<notin> set UNSAFE_URL_BYTES_TO_REMOVE) u1;
          pre = takeWhile (\<lambda>c. c \<noteq> CHR '':'') u2;
          (sch, u3) =
            (if CHR '':'' \<in> set u2 \<and> pre \<noteq> [] \<and> ascii_alpha (hd u2) \<and> list_all scheme_chars pre
             then (lower pre, drop (length pre + 1) u2)
             else ([], u2))
      in if take 2 u3 = ''//'' then
           (let nl = fst (splitnetloc (drop 2 u3))
            in if (CHR ''['' \<in> set nl \<and> CHR '']'' \<notin> set nl) \<or>
                  (CHR '']'' \<in> set nl \<and> CHR ''['' \<notin> set nl) then Inl ValueError
               else if CHR ''['' \<in> set nl \<and> CHR '']'' \<in> set nl \<and>
                       \<not> bracketed_host_ok (bracketed_host nl) then Inl ValueError
               else Inr \<lparr>scheme = sch, netloc = nl\<rparr>)
         else Inr \<lparr>scheme = sch, netloc = []\<rparr>)"

text \<open>
  The host component of a netloc, for comparison with the netloc itself: what the
  property \<open>hostname\<close> of a parse result computes. It is the text after the last \<open>@\<close>;
  of that, the text between the brackets when there is an opening bracket, and the
  text before the first colon otherwise; in lower case up to a \<open>%\<close>.
\<close>

definition hostname :: "string \<Rightarrow> string" where
  "hostname nl =
     (let hostinfo = rev (takeWhile (\<lambda>c. c \<noteq> CHR ''@'') (rev nl));
          host = (if CHR ''['' \<in> set hostinfo
                  then takeWhile (\<lambda>c. c \<noteq> CHR '']'') (tl (dropWhile (\<lambda>c. c \<noteq> CHR ''['') hostinfo))
                  else takeWhile (\<lambda>c. c \<noteq> CHR '':'') hostinfo)
      in lower (takeWhile (\<lambda>c. c \<noteq> CHR ''%'') host) @ dropWhile (\<lambda>c. c \<noteq> CHR ''%'') host)"

section \<open>LinkManager\<close>

text \<open>
  The mutable fields of \<open>LinkManager\<close>: \<open>_entries\<close>, \<open>_entries_by_file\<close>,
  \<open>_last_scan_path\<close> and \<open>_file_colors\<close>. The two dictionaries are association lists
  in insertion order. The scanner's parser factory never changes and is passed on its own.
\<close>

record LinkManager =
  entries :: "DokkEntry list"
  entries_by_file :: file_entries
  last_scan_path :: "path option"
  file_colors :: "(path \<times> string) list"

definition COLORS :: "string list" where
  "COLORS = [CHR 0x1B # ''[91m'', CHR 0x1B # ''[92m'', CHR 0x1B # ''[93m'',
             CHR 0x1B # ''[94m'', CHR 0x1B # ''[95m'', CHR 0x1B # ''[96m'',
             CHR 0x1B # ''[97m'']"

definition LinkManager_init :: LinkManager where
  "LinkManager_init =
     \<lparr>entries = [], entries_by_file = [], last_scan_path = None, file_colors = []\<rparr>"

text \<open>The first loop of \<open>scan_for_links\<close>, over \<open>file_entries.keys()\<close>.\<close>

fun assign_colors :: "path list \<Rightarrow> nat \<Rightarrow> (path \<times> string) list \<Rightarrow> (path \<times> string) list" where
  "assign_colors [] color_index colors = colors"
| "assign_colors (p # ps) color_index colors =
     assign_colors ps (color_index + 1)
       (AList.update p (COLORS ! (color_index mod length COLORS)) colors)"

text \<open>The second loop, over \<open>file_entries.items()\<close>.\<close>

fun add_entries :: "file_entries \<Rightarrow> LinkManager \<Rightarrow> LinkManager" where
  "add_entries [] self = self"
| "add_entries ((p, es) # rest) self =
     add_entries rest
       (self\<lparr>entries_by_file := AList.update p es (entries_by_file self),
             entries := entries self @ es\<rparr>)"

text \<open>
  \<open>scan_for_links\<close> returns the number of links, or raises \<open>RuntimeError\<close> around the
  scanner's error; the second component is the manager after the call.
\<close>

definition scan_for_links ::
  "DokkParserFactory \<Rightarrow> filesystem \<Rightarrow> LinkManager \<Rightarrow> path option \<Rightarrow> bool \<Rightarrow>
     (error + nat) \<times> LinkManager" where
  "scan_for_links factory fs self root_path recursive =
     (let root = (case root_path of None \<Rightarrow> cwd fs | Some r \<Rightarrow> r);
          self1 = self\<lparr>last_scan_path := Some root, entries := [],
                       entries_by_file := [], file_colors := []\<rparr>
      in case scan_directory factory fs root recursive of
           Inl e \<Rightarrow> (Inl (RuntimeError e), self1)
         | Inr (file_entries, printed) \<Rightarrow>
             (let self2 = self1\<lparr>file_colors :=
                                   assign_colors (map fst file_entries) 0 (file_colors self1)\<rparr>;
                  self3 = add_entries file_entries self2
              in (Inr (length (entries self3)), self3)))"

definition get_all_entries :: "LinkManager \<Rightarrow> DokkEntry list" where
  "get_all_entries self = entries self"

definition get_entries_by_file :: "LinkManager \<Rightarrow> file_entries" where
  "get_entries_by_file self = entries_by_file self"

definition get_entry_by_index :: "LinkManager \<Rightarrow> int \<Rightarrow> DokkEntry option" where
  "get_entry_by_index self index =
     (if 1 \<le> index \<and> index \<le> int (length (entries self))
      then Some (entries self ! nat (index - 1))
      else None)"

definition get_file_color :: "LinkManager \<Rightarrow> path \<Rightarrow> string" where
  "get_file_color self p = (case map_of (file_colors self) p of Some c \<Rightarrow> c | None \<Rightarrow> [])"

definition filter_entries :: "LinkManager \<Rightarrow> string \<Rightarrow> DokkEntry list" where
  "filter_entries self search_term =
     (let search_lower = lower search_term
      in filter (\<lambda>entry. str_in search_lower (lower (description entry))) (entries self))"

record statistics =
  total_links :: nat
  total_files :: nat
  unique_domains :: nat

text \<open>
  The loop of \<open>get_statistics\<close> that fills the set \<open>domains\<close>; \<open>ok\<close> is the check of
  bracketed hosts that \<open>urlparse\<close> takes. An exception of \<open>urlparse\<close> is swallowed
  (\<open>continue\<close>).
\<close>

fun collect_domains :: "(string \<Rightarrow> bool) \<Rightarrow> DokkEntry list \<Rightarrow> string set \<Rightarrow> string set" where
  "collect_domains ok [] domains = domains"
| "collect_domains ok (entry # rest) domains =
     (case urlparse ok (url entry) of
        Inr parsed \<Rightarrow>
          if netloc parsed \<noteq> [] then collect_domains ok rest (insert (lower (netloc parsed)) domains)
          else collect_domains ok rest domains
      | Inl e \<Rightarrow> collect_domains ok rest domains)"

definition get_statistics :: "(string \<Rightarrow> bool) \<Rightarrow> LinkManager \<Rightarrow> statistics" where
  "get_statistics ok self =
     (if entries self = [] then \<lparr>total_links = 0, total_files = 0, unique_domains = 0\<rparr>
      else \<lparr>total_links = length (entries self),
            total_files = length (entries_by_file self),
            unique_domains = card (collect_domains ok (entries self) {})\<rparr>)"

text \<open>
  The messages of \<open>validate_all_links\<close>: \<open>InvalidScheme\<close> is "Schema URL non valido",
  \<open>MissingDomain\<close> is "Dominio mancante nell'URL", and \<open>UrlParsingError e\<close> is
  "Errore nel parsing dell'URL: e".
\<close>

datatype invalid_reason = InvalidScheme | MissingDomain | UrlParsingError error

fun validate_links :: "(string \<Rightarrow> bool) \<Rightarrow> DokkEntry list \<Rightarrow> (DokkEntry \<times> invalid_reason) list" where
  "validate_links ok [] = []"
| "validate_links ok (entry # rest) =
     (case urlparse ok (url entry) of
        Inr parsed \<Rightarrow>
          if scheme parsed = [] \<or> scheme parsed \<notin> set [''http'', ''https''] then
            (entry, InvalidScheme) # validate_links ok rest
          else if netloc parsed = [] then (entry, MissingDomain) # validate_links ok rest
          else validate_links ok rest
      | Inl e \<Rightarrow> (entry, UrlParsingError e) # validate_links ok rest)"

definition validate_all_links :: "(string \<Rightarrow> bool) \<Rightarrow> LinkManager \<Rightarrow> (DokkEntry \<times> invalid_reason) list" where
  "validate_all_links ok self = validate_links ok (entries self)"

section \<open>JSON export\<close>

text \<open>
  \<open>_export_to_json\<close> builds the dictionary \<open>data\<close> and hands it to \<open>json.dumps\<close>. The
  model is that dictionary as a JSON value; the text is its rendering, which keeps every
  array and its length.
\<close>

datatype json =
    JNull
  | JInt int
  | JString string
  | JArray "json list"
  | JObject "(string \<times> json) list"

definition entry_json :: "DokkEntry \<Rightarrow> json" where
  "entry_json entry =
     JObject [(''description'', JString (description entry)), (''url'', JString (url entry))]"

definition file_json :: "path \<times> DokkEntry list \<Rightarrow> json" where
  "file_json fe =
     JObject [(''file_path'', JString (fst fe)), (''entries'', JArray (map entry_json (snd fe)))]"

definition export_to_json :: "LinkManager \<Rightarrow> json" where
  "export_to_json self =
     JObject
       [(''scan_info'',
           JObject
             [(''scan_path'', (case last_scan_path self of Some p \<Rightarrow> JString p | None \<Rightarrow> JNull)),
              (''total_entries'', JInt (int (length (entries self)))),
              (''total_files'', JInt (int (length (entries_by_file self))))]),
        (''files'', JArray (map file_json (entries_by_file self)))]"

text \<open>Reading the exported value back: a member of an object, the items of an array.\<close>

definition json_member :: "string \<Rightarrow> json \<Rightarrow> json" where
  "json_member k j = (case j of JObject kvs \<Rightarrow> (case map_of kvs k of Some v \<Rightarrow> v | None \<Rightarrow> JNull) | _ \<Rightarrow> JNull)"

definition json_items :: "json \<Rightarrow> json list" where
  "json_items j = (case j of JArray xs \<Rightarrow> xs | _ \<Rightarrow> [])"

definition exported_entries :: "json \<Rightarrow> json list" where
  "exported_entries j =
     concat (map (\<lambda>f. json_items (json_member ''entries'' f)) (json_items (json_member ''files'' j)))"

section \<open>Reachable states of the manager\<close>

text \<open>
  The fields of \<open>LinkManager\<close> are private: a manager is in the state its constructor
  builds, or in a state a call of \<open>scan_for_links\<close> leaves (whatever the filesystem is
  at that moment, and whether the call returns or raises).
\<close>

inductive reachable :: "LinkManager \<Rightarrow> bool" where
  reachable_init: "reachable LinkManager_init"
| reachable_scan:
    "reachable self \<Longrightarrow> reachable (snd (scan_for_links factory fs self root_path recursive))"

text \<open>
  What every reachable state satisfies: the keys of the mapping are distinct, no file
  of the mapping has an empty list, the flattened list is the concatenation of the
  lists of the mapping in its order, and the colour table has the keys of the mapping
  in the same order, the file at position \<open>i\<close> with the colour at \<open>i mod length COLORS\<close>.
\<close>

definition invariant :: "LinkManager \<Rightarrow> bool" where
  "invariant self \<longleftrightarrow>
     distinct (map fst (entries_by_file self)) \<and>
     [] \<notin> set (map snd (entries_by_file self)) \<and>
     entries self = concat (map snd (entries_by_file self)) \<and>
     file_colors self =
       zip (map fst (entries_by_file self))
           (map (\<lambda>i. COLORS ! (i mod length COLORS)) [0..<length (entries_by_file self)])"

section \<open>A filesystem to compute on\<close>

text \<open>
  Four directories. \<open>d\<close> holds two good files, a file whose second line is malformed
  and a file of comments only; \<open>e\<close> holds a file whose line goes on after the closing
  quote and a file whose URL has no host; \<open>h\<close> holds a file with three URLs of one
  host; \<open>u\<close> holds a file with two URLs whose hosts differ in case only.
  \<open>notes.txt\<close> is a file, \<open>missing\<close> does not exist. Every warning is printed.
\<close>

definition trailing_line :: string where
  \<open>trailing_line = ''"a" -> "http://x" junk''\<close>

definition demo_files :: "(path \<times> string) list" where
  \<open>demo_files =
     [(''d/a.dokk'', ''"X" -> "https://x.test"'' @ [CHR 0x0A]),
      (''d/bad.dokk'', ''"Z" -> "https://z.test"'' @ [CHR 0x0A] @ ''oops'' @ [CHR 0x0A]),
      (''d/c.dokk'', ''# nothing here'' @ [CHR 0x0A]),
      (''d/b.dokk'', ''"Y" -> "https://y.test"'' @ [CHR 0x0A]),
      (''e/t.dokk'', trailing_line),
      (''e/n.dokk'', ''"N" -> "http://"''),
      (''h/h.dokk'',
         ''"1" -> "http://x.test/"'' @ [CHR 0x0A] @
         ''"2" -> "http://x.test:80/"'' @ [CHR 0x0A] @
         ''"3" -> "http://user@x.test/"'' @ [CHR 0x0A]),
      (''u/u.dokk'',
         ''"U" -> "https://X.Test/a"'' @ [CHR 0x0A] @
         ''"L" -> "https://x.test/b"'' @ [CHR 0x0A]),
      (''notes.txt'', ''notes'')]\<close>

definition demo_fs :: filesystem where
  "demo_fs =
     \<lparr>cwd = ''d'',
      path_exists = (\<lambda>p. p \<in> set [''d'', ''e'', ''h'', ''u''] \<or> p \<in> set (map fst demo_files)),
      path_is_file = (\<lambda>p. p \<in> set (map fst demo_files)),
      path_is_dir = (\<lambda>p. p \<in> set [''d'', ''e'', ''h'', ''u'']),
      path_glob = (\<lambda>root pattern.
         if root = ''d'' then [''d/a.dokk'', ''d/bad.dokk'', ''d/c.dokk'', ''d/b.dokk'']
         else if root = ''e'' then [''e/t.dokk'', ''e/n.dokk'']
         else if root = ''h'' then [''h/h.dokk'']
         else if root = ''u'' then [''u/u.dokk'']
         else []),
      read_utf8 = (\<lambda>p. case map_of demo_files p of Some c \<Rightarrow> Content c | None \<Rightarrow> OtherError),
      read_latin1 = (\<lambda>p. None),
      stat_error = (\<lambda>p. None),
      print_error = (\<lambda>p e. None)\<rparr>"


text \<open>A check of bracketed hosts that accepts every host.\<close>

definition any_bracketed_host :: "string \<Rightarrow> bool" where
  "any_bracketed_host h = True"

definition entry_X :: DokkEntry where
  "entry_X = \<lparr>description = ''X'', url = ''https://x.test'', file_path = ''d/a.dokk''\<rparr>"

definition entry_Y :: DokkEntry where
  "entry_Y = \<lparr>description = ''Y'', url = ''https://y.test'', file_path = ''d/b.dokk''\<rparr>"

definition entry_N :: DokkEntry where
  "entry_N = \<lparr>description = ''N'', url = ''http://'', file_path = ''e/n.dokk''\<rparr>"

definition entry_t :: DokkEntry where
  "entry_t = \<lparr>description = ''a'', url = ''http://x'', file_path = ''e/t.dokk''\<rparr>"

definition entry_1 :: DokkEntry where
  "entry_1 = \<lparr>description = ''1'', url = ''http://x.test/'', file_path = ''h/h.dokk''\<rparr>"

definition entry_2 :: DokkEntry where
  "entry_2 = \<lparr>description = ''2'', url = ''http://x.test:80/'', file_path = ''h/h.dokk''\<rparr>"

definition entry_3 :: DokkEntry where
  "entry_3 = \<lparr>description = ''3'', url = ''http://user@x.test/'', file_path = ''h/h.dokk''\<rparr>"

definition entry_U :: DokkEntry where
  "entry_U = \<lparr>description = ''U'', url = ''https://X.Test/a'', file_path = ''u/u.dokk''\<rparr>"

definition entry_L :: DokkEntry where
  "entry_L = \<lparr>description = ''L'', url = ''https://x.test/b'', file_path = ''u/u.dokk''\<rparr>"

text \<open>The manager after scanning \<open>d\<close>, \<open>e\<close>, \<open>h\<close> and \<open>u\<close>.\<close>

definition manager_d :: LinkManager where
  "manager_d =
     \<lparr>entries = [entry_X, entry_Y],
      entries_by_file = [(''d/a.dokk'', [entry_X]), (''d/b.dokk'', [entry_Y])],
      last_scan_path = Some ''d'',
      file_colors = [(''d/a.dokk'', COLORS ! 0), (''d/b.dokk'', COLORS ! 1)]\<rparr>"

definition manager_h :: LinkManager where
  "manager_h =
     \<lparr>entries = [entry_1, entry_2, entry_3],
      entries_by_file = [(''h/h.dokk'', [entry_1, entry_2, entry_3])],
      last_scan_path = Some ''h'',
      file_colors = [(''h/h.dokk'', COLORS ! 0)]\<rparr>"

definition manager_u :: LinkManager where
  "manager_u =
     \<lparr>entries = [entry_U, entry_L],
      entries_by_file = [(''u/u.dokk'', [entry_U, entry_L])],
      last_scan_path = Some ''u'',
      file_colors = [(''u/u.dokk'', COLORS ! 0)]\<rparr>"

definition manager_e :: LinkManager where
  "manager_e =
     \<lparr>entries = [entry_t, entry_N],
      entries_by_file = [(''e/t.dokk'', [entry_t]), (''e/n.dokk'', [entry_N])],
      last_scan_path = Some ''e'',
      file_colors = [(''e/t.dokk'', COLORS ! 0), (''e/n.dokk'', COLORS ! 1)]\<rparr>"

section \<open>Properties of DokkEntry\<close>

lemma DokkEntry_init_Inr_iff:
  "(\<exists>e. DokkEntry_init d u p = Inr e) \<longleftrightarrow>
     strip d \<noteq> [] \<and> strip u \<noteq> [] \<and>
     (startswith (strip u) ''http://'' \<or> startswith (strip u) ''https://'')"
  by (auto simp: DokkEntry_init_def DokkEntry_validate_def Let_def)

lemma DokkEntry_init_Inr_fields:
  "DokkEntry_init d u p = Inr e \<Longrightarrow>
     description e = strip d \<and> url e = strip u \<and> file_path e = p"
  by (auto simp: DokkEntry_init_def DokkEntry_validate_def Let_def split: if_splits)

lemma DokkEntry_init_Inl_ParseError:
  "DokkEntry_init d u p = Inl err \<Longrightarrow> \<exists>pe. err = ParseError pe"
  by (auto simp: DokkEntry_init_def DokkEntry_validate_def Let_def split: if_splits)

lemmas string_defs = strip_def lstrip_def rstrip_def isspace_def startswith_def

text \<open>
  C4, as the code has it. Entry construction trims the description and the URL. It
  succeeds if and only if the trimmed description is not empty, the trimmed URL is not
  empty, and the trimmed URL starts with \<open>http://\<close> or \<open>https://\<close> (compared as
  written, in lower case only: nothing is normalised). The test is on this prefix, not
  on the scheme of the URL. Every failure is a \<open>ParseError\<close>, and the entry built holds
  exactly the trimmed description, the trimmed URL and the source file.
\<close>

theorem DokkEntry_init_correct:
  "((\<exists>e. DokkEntry_init d u p = Inr e) \<longleftrightarrow>
      strip d \<noteq> [] \<and> strip u \<noteq> [] \<and>
      (startswith (strip u) ''http://'' \<or> startswith (strip u) ''https://'')) \<and>
   (\<forall>e. DokkEntry_init d u p = Inr e \<longrightarrow>
      e = \<lparr>description = strip d, url = strip u, file_path = p\<rparr>) \<and>
   (\<forall>err. DokkEntry_init d u p = Inl err \<longrightarrow> (\<exists>pe. err = ParseError pe))"
proof (intro conjI allI impI)
  show "(\<exists>e. DokkEntry_init d u p = Inr e) \<longleftrightarrow>
      strip d \<noteq> [] \<and> strip u \<noteq> [] \<and>
      (startswith (strip u) ''http://'' \<or> startswith (strip u) ''https://'')"
    by (rule DokkEntry_init_Inr_iff)
next
  fix e assume "DokkEntry_init d u p = Inr e"
  from DokkEntry_init_Inr_fields [OF this]
  show "e = \<lparr>description = strip d, url = strip u, file_path = p\<rparr>" by simp
next
  fix err assume "DokkEntry_init d u p = Inl err"
  then show "\<exists>pe. err = ParseError pe" by (rule DokkEntry_init_Inl_ParseError)
qed

theorem DokkEntry_init_correct_witness:
  "DokkEntry_init '' Docs '' '' https://x.test '' ''a.dokk'' =
     Inr \<lparr>description = ''Docs'', url = ''https://x.test'', file_path = ''a.dokk''\<rparr> \<and>
   DokkEntry_init ''Docs'' ''HTTP://x.test'' ''a.dokk'' =
     Inl (ParseError (InvalidUrl ''HTTP://x.test'' ''Docs'' ''a.dokk''))"
proof -
  let ?d = "'' Docs ''" and ?u = "'' https://x.test ''" and ?p = "''a.dokk''"
  have c: "strip ?d \<noteq> [] \<and> strip ?u \<noteq> [] \<and>
      (startswith (strip ?u) ''http://'' \<or> startswith (strip ?u) ''https://'')"
    by (simp add: string_defs)
  note t = DokkEntry_init_correct [of ?d ?u ?p]
  from t c obtain e where e: "DokkEntry_init ?d ?u ?p = Inr e" by blast
  with t have "e = \<lparr>description = strip ?d, url = strip ?u, file_path = ?p\<rparr>" by blast
  with e have 1: "DokkEntry_init ?d ?u ?p =
      Inr \<lparr>description = ''Docs'', url = ''https://x.test'', file_path = ''a.dokk''\<rparr>"
    by (simp add: string_defs)
  have 2: "DokkEntry_init ''Docs'' ''HTTP://x.test'' ''a.dokk'' =
     Inl (ParseError (InvalidUrl ''HTTP://x.test'' ''Docs'' ''a.dokk''))"
    by (simp add: DokkEntry_init_def DokkEntry_validate_def string_defs)
  from 1 2 show ?thesis by simp
qed

text \<open>
  C4 as stated fails: the description and the URL \<open>http:x.test\<close> are not empty after
  trimming and the scheme of the URL is exactly \<open>http\<close>, yet construction fails.
\<close>

theorem DokkEntry_init_rejects_http_scheme:
  "strip ''Docs'' = ''Docs'' \<and>
   strip ''http:x.test'' = ''http:x.test'' \<and>
   urlparse any_bracketed_host ''http:x.test'' = Inr \<lparr>scheme = ''http'', netloc = []\<rparr> \<and>
   DokkEntry_init ''Docs'' ''http:x.test'' ''a.dokk'' =
     Inl (ParseError (InvalidUrl ''http:x.test'' ''Docs'' ''a.dokk''))"
  by code_simp

section \<open>Properties of the parser\<close>

lemma parse_line_Inl_shape:
  assumes "parse_line p m l = Inl err"
  shows "err = ParseError (InvalidFormat m p (strip l)) \<or> (\<exists>e. err = ParseError (ErrorAtLine m p e))"
proof (cases "PATTERN_match (strip l)")
  case None
  with assms show ?thesis
    by (auto simp: parse_line_def Let_def split: if_splits)
next
  case (Some du)
  obtain d u where du: "du = (d, u)" by (cases du)
  show ?thesis
  proof (cases "DokkEntry_init d u p")
    case (Inl e)
    then obtain pe where "e = ParseError pe" using DokkEntry_init_Inl_ParseError by blast
    with assms Some du Inl show ?thesis
      by (auto simp: parse_line_def Let_def split: if_splits)
  next
    case (Inr a)
    with assms Some du show ?thesis
      by (auto simp: parse_line_def Let_def split: if_splits)
  qed
qed

lemma parse_line_malformed:
  assumes "strip l \<noteq> []" "\<not> startswith (strip l) ''#''" "PATTERN_match (strip l) = None"
  shows "parse_line p m l = Inl (ParseError (InvalidFormat m p (strip l)))"
  using assms by (simp add: parse_line_def Let_def)

lemma parse_lines_first_error:
  assumes "i < length ls" and "\<exists>e. parse_line p (n + i + 1) (ls ! i) = Inl e"
  shows "\<exists>k\<le>i. \<exists>err. parse_lines p n ls acc = Inl err \<and>
           parse_line p (n + k + 1) (ls ! k) = Inl err \<and>
           (\<forall>j<k. \<exists>r. parse_line p (n + j + 1) (ls ! j) = Inr r)"
  using assms
proof (induction ls arbitrary: n i acc)
  case Nil
  then show ?case by simp
next
  case (Cons l ls)
  show ?case
  proof (cases "parse_line p (n + 1) l")
    case (Inl e)
    then have "parse_lines p n (l # ls) acc = Inl e \<and> parse_line p (n + 0 + 1) ((l # ls) ! 0) = Inl e"
      by simp
    then show ?thesis by (intro exI[of _ 0]) auto
  next
    case (Inr r)
    then obtain i' where i: "i = Suc i'"
      using Cons.prems by (cases i) auto
    with Cons.prems have "i' < length ls" "\<exists>e. parse_line p (Suc n + i' + 1) (ls ! i') = Inl e"
      by auto
    from Cons.IH [OF this]
    have IH: "\<exists>k\<le>i'. \<exists>err. parse_lines p (Suc n) ls acc' = Inl err \<and>
           parse_line p (Suc n + k + 1) (ls ! k) = Inl err \<and>
           (\<forall>j<k. \<exists>r. parse_line p (Suc n + j + 1) (ls ! j) = Inr r)" for acc' .
    define acc' where "acc' = (case r of None \<Rightarrow> acc | Some entry \<Rightarrow> acc @ [entry])"
    have step: "parse_lines p n (l # ls) acc = parse_lines p (Suc n) ls acc'"
      using Inr by (simp add: acc'_def split: option.splits)
    from IH [of acc'] obtain k err where k: "k \<le> i'"
      "parse_lines p (Suc n) ls acc' = Inl err"
      "parse_line p (Suc n + k + 1) (ls ! k) = Inl err"
      "\<forall>j<k. \<exists>r. parse_line p (Suc n + j + 1) (ls ! j) = Inr r" by blast
    have "\<forall>j<Suc k. \<exists>r. parse_line p (n + j + 1) ((l # ls) ! j) = Inr r"
    proof (intro allI impI)
      fix j assume "j < Suc k"
      show "\<exists>r. parse_line p (n + j + 1) ((l # ls) ! j) = Inr r"
      proof (cases j)
        case 0
        with Inr show ?thesis by simp
      next
        case (Suc j')
        with \<open>j < Suc k\<close> k(4) show ?thesis by simp
      qed
    qed
    with k step i show ?thesis
      by (intro exI[of _ "Suc k"]) auto
  qed
qed

text \<open>What the filesystem \<open>demo_fs\<close> gives, computed.\<close>

lemma demo_bad_file:
  "path_exists demo_fs ''d/bad.dokk''"
  "path_is_file demo_fs ''d/bad.dokk''"
  \<open>read_content demo_fs ''d/bad.dokk'' =
     Inr (''"Z" -> "https://z.test"'' @ [CHR 0x0A] @ ''oops'' @ [CHR 0x0A])\<close>
  \<open>splitlines (''"Z" -> "https://z.test"'' @ [CHR 0x0A] @ ''oops'' @ [CHR 0x0A]) =
     [''"Z" -> "https://z.test"'', ''oops'']\<close>
  by code_simp+


text \<open>
  C2, as the code has it. Take a file that exists, is a regular file and can be read,
  and a line of it that is neither blank nor a comment and at whose start the
  quoted-arrow pattern does not match. Then \<open>parse\<close> returns no entries: it fails with
  a \<open>ParseError\<close> that carries the path of the file and the number of the first line
  the loop rejects, which is this line or an earlier one (every line before it was
  accepted), and it is the "invalid format" error of this very line when no earlier
  line is rejected. The pattern is matched at the start of the line only: what
  follows the closing quote of the URL is not looked at.
\<close>

theorem parse_fails_on_malformed_line:
  assumes "path_exists fs p" and "path_is_file fs p"
    and "read_content fs p = Inr content"
    and "i < length (splitlines content)"
    and "strip (splitlines content ! i) \<noteq> []"
    and "\<not> startswith (strip (splitlines content ! i)) ''#''"
    and "PATTERN_match (strip (splitlines content ! i)) = None"
  shows "\<exists>k\<le>i. \<exists>pe.
           StandardDokkParser_parse fs p = Inl (ParseError pe) \<and>
           (pe = InvalidFormat (k + 1) p (strip (splitlines content ! k)) \<or>
            (\<exists>e. pe = ErrorAtLine (k + 1) p e)) \<and>
           parse_line p (k + 1) (splitlines content ! k) = Inl (ParseError pe) \<and>
           (\<forall>j<k. \<exists>r. parse_line p (j + 1) (splitlines content ! j) = Inr r) \<and>
           (k = i \<longrightarrow> pe = InvalidFormat (i + 1) p (strip (splitlines content ! i)))"
proof -
  let ?ls = "splitlines content"
  have bad: "parse_line p m (?ls ! i) = Inl (ParseError (InvalidFormat m p (strip (?ls ! i))))" for m
    using assms(5-7) by (rule parse_line_malformed)
  then have "\<exists>e. parse_line p (0 + i + 1) (?ls ! i) = Inl e" by blast
  from parse_lines_first_error [OF assms(4) this, of "[]"]
  obtain k err where k: "k \<le> i" "parse_lines p 0 ?ls [] = Inl err"
    "parse_line p (k + 1) (?ls ! k) = Inl err"
    "\<forall>j<k. \<exists>r. parse_line p (j + 1) (?ls ! j) = Inr r"
    by auto
  from parse_line_Inl_shape [OF k(3)]
  obtain pe where pe: "err = ParseError pe"
    "pe = InvalidFormat (k + 1) p (strip (?ls ! k)) \<or> (\<exists>e. pe = ErrorAtLine (k + 1) p e)"
    by blast
  have res: "StandardDokkParser_parse fs p = Inl (ParseError pe)"
    using assms(1-3) k(2) pe(1)
    by (simp add: StandardDokkParser_parse_def Path_exists_def Path_is_file_def)
  have last: "k = i \<longrightarrow> pe = InvalidFormat (i + 1) p (strip (?ls ! i))"
    using k(3) pe(1) bad [of "i + 1"] by auto
  from k(1) res pe k(3,4) last show ?thesis by blast
qed

theorem parse_fails_on_malformed_line_witness:
  "StandardDokkParser_parse demo_fs ''d/bad.dokk'' =
     Inl (ParseError (InvalidFormat 2 ''d/bad.dokk'' ''oops''))"
proof -
  let ?p = "''d/bad.dokk''"
  let ?c = \<open>''"Z" -> "https://z.test"'' @ [CHR 0x0A] @ ''oops'' @ [CHR 0x0A]\<close>
  have ls: \<open>splitlines ?c = [''"Z" -> "https://z.test"'', ''oops'']\<close>
    by (rule demo_bad_file(4))
  have h4: "1 < length (splitlines ?c)" unfolding ls by simp
  have line: "splitlines ?c ! 1 = ''oops''" unfolding ls by simp
  have h5: "strip (splitlines ?c ! 1) \<noteq> []"
    unfolding line by code_simp
  have h6: "\<not> startswith (strip (splitlines ?c ! 1)) ''#''"
    unfolding line by code_simp
  have h7: "PATTERN_match (strip (splitlines ?c ! 1)) = None"
    unfolding line by code_simp
  have l0: \<open>splitlines ?c ! 0 = ''"Z" -> "https://z.test"''\<close> unfolding ls by simp
  have first: "parse_line ?p (0 + 1) (splitlines ?c ! 0) =
      Inr (Some \<lparr>description = ''Z'', url = ''https://z.test'', file_path = ?p\<rparr>)"
    unfolding l0 by code_simp
  from parse_fails_on_malformed_line
    [OF demo_bad_file(1) demo_bad_file(2) demo_bad_file(3) h4 h5 h6 h7]
  obtain k pe where k: "k \<le> 1"
    "StandardDokkParser_parse demo_fs ?p = Inl (ParseError pe)"
    "parse_line ?p (k + 1) (splitlines ?c ! k) = Inl (ParseError pe)"
    "k = 1 \<longrightarrow> pe = InvalidFormat (1 + 1) ?p (strip (splitlines ?c ! 1))"
    by blast
  have "k \<noteq> 0"
  proof
    assume "k = 0"
    with k(3) first show False by simp
  qed
  with k(1) have "k = 1" by simp
  with k(4) [unfolded line] have "pe = InvalidFormat 2 ?p (strip ''oops'')" by simp
  moreover have "strip ''oops'' = ''oops''" by code_simp
  ultimately show ?thesis using k(2) by simp
qed

text \<open>
  C2 as stated fails: the only line of \<open>e/t.dokk\<close> is neither blank nor a comment and is
  not the quoted-arrow pattern with nothing after it, yet \<open>parse\<close> returns its entry.
\<close>

theorem parse_accepts_trailing_text:
  "read_content demo_fs ''e/t.dokk'' = Inr trailing_line \<and>
   splitlines trailing_line = [trailing_line] \<and>
   strip trailing_line \<noteq> [] \<and>
   \<not> startswith (strip trailing_line) ''#'' \<and>
   \<not> PATTERN_fullmatch (strip trailing_line) \<and>
   StandardDokkParser_parse demo_fs ''e/t.dokk'' = Inr [entry_t]"
  by code_simp

section \<open>Properties of the scanner\<close>

lemma scan_files_distinct:
  "scan_files f fs ps (res, out) = Inr (r, out') \<Longrightarrow> distinct (map fst res) \<Longrightarrow>
   distinct (map fst r)"
proof (induction ps arbitrary: res out)
  case Nil
  then show ?case by simp
next
  case (Cons p ps)
  show ?case
  proof (cases "parse_file f fs p")
    case (Inl e)
    with Cons.prems Cons.IH [of res "out @ [(p, e)]"] show ?thesis
      by (auto split: option.splits)
  next
    case (Inr es)
    show ?thesis
    proof (cases "es = []")
      case True
      with Inr Cons.prems Cons.IH [of res out] show ?thesis by simp
    next
      case False
      with Inr Cons.prems Cons.IH [of "AList.update p es res" out]
        distinct_update [OF Cons.prems(2), of p es]
      show ?thesis by simp
    qed
  qed
qed

lemma scan_files_map_of:
  "scan_files f fs ps (res, out) = Inr (r, out') \<Longrightarrow>
   map_of r q =
     (if q \<in> set ps \<and> (\<exists>es. parse_file f fs q = Inr es \<and> es \<noteq> [])
      then Some (projr (parse_file f fs q)) else map_of res q)"
proof (induction ps arbitrary: res out)
  case Nil
  then show ?case by simp
next
  case (Cons p ps)
  show ?case
  proof (cases "parse_file f fs p")
    case (Inl e)
    with Cons.prems Cons.IH [of res "out @ [(p, e)]"] show ?thesis
      by (auto split: option.splits)
  next
    case (Inr es)
    show ?thesis
    proof (cases "es = []")
      case True
      with Inr Cons.prems Cons.IH [of res out] show ?thesis by auto
    next
      case False
      with Inr Cons.prems Cons.IH [of "AList.update p es res" out] show ?thesis
        by (auto simp: update_conv')
    qed
  qed
qed



lemma scan_files_set:
  assumes "scan_files f fs ps ([], []) = Inr (r, out')"
  shows "(q, es) \<in> set r \<longleftrightarrow> q \<in> set ps \<and> parse_file f fs q = Inr es \<and> es \<noteq> []"
proof -
  have d: "distinct (map fst r)"
    using scan_files_distinct [OF assms] by simp
  have "(q, es) \<in> set r \<longleftrightarrow> map_of r q = Some es"
    using d by simp
  also have "\<dots> \<longleftrightarrow> q \<in> set ps \<and> parse_file f fs q = Inr es \<and> es \<noteq> []"
    by (auto simp: scan_files_map_of [OF assms])
  finally show ?thesis .
qed




lemma demo_scan_d:
  "scan_directory DokkParserFactory_init demo_fs ''d'' True =
     Inr ([(''d/a.dokk'', [entry_X]), (''d/b.dokk'', [entry_Y])],
          [(''d/bad.dokk'', ParseError (InvalidFormat 2 ''d/bad.dokk'' ''oops''))])"
  "scan_directory DokkParserFactory_init demo_fs ''missing'' True = Inl (FileNotFoundError ''missing'')"
  "scan_directory DokkParserFactory_init demo_fs ''notes.txt'' True = Inl (NotADirectoryError ''notes.txt'')"
  by code_simp+

lemma demo_dirs:
  "path_exists demo_fs ''d''" "path_is_dir demo_fs ''d''"
  "\<not> path_exists demo_fs ''missing''"
  "path_exists demo_fs ''notes.txt''" "\<not> path_is_dir demo_fs ''notes.txt''"
  "path_glob demo_fs ''d'' ''**/*.dokk'' = [''d/a.dokk'', ''d/bad.dokk'', ''d/c.dokk'', ''d/b.dokk'']"
  by code_simp+





section \<open>Properties of the manager\<close>

lemma update_new_key:
  "k \<notin> fst ` set al \<Longrightarrow> AList.update k v al = al @ [(k, v)]"
  by (induction al) auto

lemma assign_colors_distinct:
  "distinct ks \<Longrightarrow> set ks \<inter> fst ` set colors = {} \<Longrightarrow>
   assign_colors ks n colors =
     colors @ zip ks (map (\<lambda>i. COLORS ! (i mod length COLORS)) [n..<n + length ks])"
proof (induction ks arbitrary: n colors)
  case Nil
  then show ?case by simp
next
  case (Cons k ks)
  let ?c = "COLORS ! (n mod length COLORS)"
  have new: "AList.update k ?c colors = colors @ [(k, ?c)]"
    using Cons.prems by (intro update_new_key) auto
  have disj: "set ks \<inter> fst ` set (colors @ [(k, ?c)]) = {}"
    using Cons.prems by auto
  have upt: "[n..<n + length (k # ks)] = n # [Suc n..<Suc n + length ks]"
    by (subst upt_rec) simp
  from Cons.prems have "distinct ks" by simp
  from Cons.IH [OF this disj, of "Suc n"] new upt show ?case by simp
qed

lemma add_entries_distinct:
  "distinct (map fst fe) \<Longrightarrow> fst ` set fe \<inter> fst ` set (entries_by_file self) = {} \<Longrightarrow>
   add_entries fe self =
     self\<lparr>entries_by_file := entries_by_file self @ fe,
          entries := entries self @ concat (map snd fe)\<rparr>"
proof (induction fe arbitrary: self)
  case Nil
  then show ?case by simp
next
  case (Cons x fe)
  obtain p es where x: "x = (p, es)" by (cases x)
  let ?s = "self\<lparr>entries_by_file := AList.update p es (entries_by_file self),
                  entries := entries self @ es\<rparr>"
  have new: "AList.update p es (entries_by_file self) = entries_by_file self @ [(p, es)]"
    using Cons.prems x by (intro update_new_key) auto
  have d: "distinct (map fst fe)" using Cons.prems by simp
  have disj: "fst ` set fe \<inter> fst ` set (entries_by_file ?s) = {}"
    using Cons.prems x new by auto
  from Cons.IH [OF d disj] x new show ?case by simp
qed

lemma scan_directory_result:
  assumes "scan_directory factory fs root recursive = Inr (fe, printed)"
  shows "distinct (map fst fe)" and "[] \<notin> set (map snd fe)"
proof -
  let ?files = "path_glob fs root (if recursive then ''**/*.dokk'' else ''*.dokk'')"
  from assms have sf: "scan_files factory fs ?files ([], []) = Inr (fe, printed)"
    by (auto simp: scan_directory_def Let_def split: sum.splits if_splits)
  show "distinct (map fst fe)" using scan_files_distinct [OF sf] by simp
  show "[] \<notin> set (map snd fe)"
  proof
    assume "[] \<in> set (map snd fe)"
    then obtain p where "(p, []) \<in> set fe" by auto
    then show False by (simp add: scan_files_set [OF sf])
  qed
qed

lemma scan_for_links_Inr:
  assumes "scan_directory factory fs (case root_path of None \<Rightarrow> cwd fs | Some r \<Rightarrow> r) recursive
             = Inr (fe, printed)"
  shows "scan_for_links factory fs self root_path recursive =
     (Inr (length (concat (map snd fe))),
      \<lparr>entries = concat (map snd fe), entries_by_file = fe,
       last_scan_path = Some (case root_path of None \<Rightarrow> cwd fs | Some r \<Rightarrow> r),
       file_colors = zip (map fst fe) (map (\<lambda>i. COLORS ! (i mod length COLORS)) [0..<length fe])\<rparr>)"
proof -
  have d: "distinct (map fst fe)" using scan_directory_result(1) [OF assms] .
  have c: "assign_colors (map fst fe) 0 [] =
             zip (map fst fe) (map (\<lambda>i. COLORS ! (i mod length COLORS)) [0..<length fe])"
    using assign_colors_distinct [OF d, of "[]" 0] by simp
  show ?thesis
    using assms c d by (simp add: scan_for_links_def Let_def add_entries_distinct)
qed

lemma scan_for_links_Inl:
  assumes "scan_directory factory fs (case root_path of None \<Rightarrow> cwd fs | Some r \<Rightarrow> r) recursive
             = Inl e"
  shows "scan_for_links factory fs self root_path recursive =
     (Inl (RuntimeError e),
      \<lparr>entries = [], entries_by_file = [],
       last_scan_path = Some (case root_path of None \<Rightarrow> cwd fs | Some r \<Rightarrow> r),
       file_colors = []\<rparr>)"
  using assms by (simp add: scan_for_links_def Let_def)

lemma invariant_scan_for_links:
  "invariant (snd (scan_for_links factory fs self root_path recursive))"
proof (cases "scan_directory factory fs (case root_path of None \<Rightarrow> cwd fs | Some r \<Rightarrow> r) recursive")
  case (Inl e)
  from scan_for_links_Inl [OF this] show ?thesis by (simp add: invariant_def)
next
  case (Inr r)
  obtain fe printed where r: "r = (fe, printed)" by (cases r)
  from Inr r scan_for_links_Inr [of factory fs root_path recursive fe printed self]
    scan_directory_result [of factory fs _ recursive fe printed]
  show ?thesis by (simp add: invariant_def)
qed

lemma reachable_invariant: "reachable self \<Longrightarrow> invariant self"
proof (induction rule: reachable.induct)
  case reachable_init
  show ?case by (simp add: invariant_def LinkManager_init_def)
next
  case (reachable_scan self factory fs root_path recursive)
  show ?case by (rule invariant_scan_for_links)
qed

lemma demo_scan_for_links:
  "scan_for_links DokkParserFactory_init demo_fs LinkManager_init None True = (Inr 2, manager_d)"
  "scan_for_links DokkParserFactory_init demo_fs manager_d (Some ''e'') False = (Inr 2, manager_e)"
  "scan_for_links DokkParserFactory_init demo_fs LinkManager_init (Some ''h'') True = (Inr 3, manager_h)"
  "scan_for_links DokkParserFactory_init demo_fs LinkManager_init (Some ''u'') True = (Inr 2, manager_u)"
  by code_simp+

lemma reachable_demo:
  "reachable manager_d" "reachable manager_e" "reachable manager_h" "reachable manager_u"
proof -
  from reachable_scan [OF reachable_init, of DokkParserFactory_init demo_fs None True]
  show d: "reachable manager_d" by (simp add: demo_scan_for_links)
  from reachable_scan [OF d, of DokkParserFactory_init demo_fs "Some ''e''" False]
  show "reachable manager_e" by (simp add: demo_scan_for_links)
  from reachable_scan [OF reachable_init, of DokkParserFactory_init demo_fs "Some ''h''" True]
  show "reachable manager_h" by (simp add: demo_scan_for_links)
  from reachable_scan [OF reachable_init, of DokkParserFactory_init demo_fs "Some ''u''" True]
  show "reachable manager_u" by (simp add: demo_scan_for_links)
qed

text \<open>
  C1, as the code has it. \<open>scan_for_links\<close> stores the root and clears the entry list,
  the mapping and the colour table before it calls the scanner. So when the root does
  not exist or is not a directory, the call fails with a \<open>RuntimeError\<close> around the
  scanner's error and leaves the manager reset: no entries, an empty mapping, no
  colours, and the failing root as the last scanned path. The state before the call
  is not kept.
\<close>

theorem scan_for_links_failure_resets:
  assumes "root = (case root_path of None \<Rightarrow> cwd fs | Some r \<Rightarrow> r)"
    and "\<not> path_exists fs root \<or> \<not> path_is_dir fs root"
  shows "\<exists>e. scan_directory factory fs root recursive = Inl e \<and>
           scan_for_links factory fs self root_path recursive =
             (Inl (RuntimeError e),
              \<lparr>entries = [], entries_by_file = [], last_scan_path = Some root,
               file_colors = []\<rparr>)"
proof -
  from assms(2) have "\<exists>e. scan_directory factory fs root recursive = Inl e"
    by (cases "path_exists fs root"; cases "stat_error fs root")
       (simp_all add: scan_directory_def Path_exists_def Path_is_dir_def)
  then obtain e where e: "scan_directory factory fs root recursive = Inl e" ..
  from e scan_for_links_Inl [of factory fs root_path recursive e self] assms(1)
  show ?thesis by simp
qed

theorem scan_for_links_failure_resets_witness:
  "scan_for_links DokkParserFactory_init demo_fs manager_d (Some ''notes.txt'') True =
     (Inl (RuntimeError (NotADirectoryError ''notes.txt'')),
      \<lparr>entries = [], entries_by_file = [], last_scan_path = Some ''notes.txt'',
       file_colors = []\<rparr>)"
proof -
  have r: "''notes.txt'' = (case Some ''notes.txt'' of None \<Rightarrow> cwd demo_fs | Some r \<Rightarrow> r)"
    by simp
  have h: "\<not> path_exists demo_fs ''notes.txt'' \<or> \<not> path_is_dir demo_fs ''notes.txt''"
    using demo_dirs(5) by simp
  from scan_for_links_failure_resets [OF r h, of DokkParserFactory_init True manager_d]
  show ?thesis by (simp add: demo_scan_d(3))
qed

text \<open>
  C1 as stated fails: \<open>manager_d\<close> is the manager after scanning \<open>d\<close>; a scan of the
  missing root fails and the manager is no longer \<open>manager_d\<close>.
\<close>

theorem scan_for_links_failure_not_atomic:
  "scan_for_links DokkParserFactory_init demo_fs LinkManager_init None True = (Inr 2, manager_d) \<and>
   \<not> path_exists demo_fs ''missing'' \<and>
   scan_directory DokkParserFactory_init demo_fs ''missing'' True =
     Inl (FileNotFoundError ''missing'') \<and>
   fst (scan_for_links DokkParserFactory_init demo_fs manager_d (Some ''missing'') True) =
     Inl (RuntimeError (FileNotFoundError ''missing'')) \<and>
   snd (scan_for_links DokkParserFactory_init demo_fs manager_d (Some ''missing'') True) \<noteq> manager_d"
  by code_simp

text \<open>
  C8. For every state of the manager and every integer index, \<open>get_entry_by_index\<close>
  returns the entry at that position of the flattened list, counted from 1, when the
  index is between 1 and the number of entries, and \<open>None\<close> otherwise; index 0 and
  the index one past the count give \<open>None\<close>.
\<close>

theorem get_entry_by_index_range:
  "(1 \<le> index \<and> index \<le> int (length (get_all_entries self)) \<longrightarrow>
      get_entry_by_index self index = Some (get_all_entries self ! nat (index - 1))) \<and>
   (\<not> (1 \<le> index \<and> index \<le> int (length (get_all_entries self))) \<longrightarrow>
      get_entry_by_index self index = None) \<and>
   get_entry_by_index self 0 = None \<and>
   get_entry_by_index self (int (length (get_all_entries self)) + 1) = None"
  by (simp add: get_entry_by_index_def get_all_entries_def)

theorem get_entry_by_index_range_witness:
  "get_entry_by_index manager_d 1 = Some entry_X \<and>
   get_entry_by_index manager_d 2 = Some entry_Y \<and>
   get_entry_by_index manager_d 0 = None \<and>
   get_entry_by_index manager_d 3 = None \<and>
   get_entry_by_index manager_d (- 1) = None"
proof -
  have all: "get_all_entries manager_d = [entry_X, entry_Y]"
    by (simp add: get_all_entries_def manager_d_def)
  from get_entry_by_index_range [of 1 manager_d] get_entry_by_index_range [of 2 manager_d]
    get_entry_by_index_range [of 3 manager_d] get_entry_by_index_range [of "- 1" manager_d]
  show ?thesis unfolding all by simp
qed

lemma str_in_empty: "str_in [] s"
  by (cases s) simp_all

text \<open>
  C10. Filtering with the empty search term returns the whole flattened list, in its
  order: the empty string occurs in every description.
\<close>

theorem filter_entries_empty_term:
  "filter_entries self [] = get_all_entries self"
  by (simp add: filter_entries_def get_all_entries_def lower_def str_in_empty)

theorem filter_entries_empty_term_witness:
  "filter_entries manager_d [] = [entry_X, entry_Y]"
  using filter_entries_empty_term [of manager_d]
  by (simp add: get_all_entries_def manager_d_def)

lemma length_COLORS: "length COLORS = 7"
  by (simp add: COLORS_def)

lemma invariant_colors:
  assumes "invariant self"
  shows "i < length (entries_by_file self) \<Longrightarrow>
           get_file_color self (fst (entries_by_file self ! i)) = COLORS ! (i mod length COLORS)"
    and "p \<notin> fst ` set (entries_by_file self) \<Longrightarrow> get_file_color self p = []"
proof -
  let ?ks = "map fst (entries_by_file self)"
  let ?vs = "map (\<lambda>i. COLORS ! (i mod length COLORS)) [0..<length (entries_by_file self)]"
  from assms have fc: "file_colors self = zip ?ks ?vs" and d: "distinct ?ks"
    by (simp_all add: invariant_def)
  have len: "length ?ks = length ?vs" by simp
  {
    assume i: "i < length (entries_by_file self)"
    then have "map_of (zip ?ks ?vs) (?ks ! i) = Some (?vs ! i)"
      using map_of_zip_nth [OF len d, of i] by simp
    with i show "get_file_color self (fst (entries_by_file self ! i)) = COLORS ! (i mod length COLORS)"
      by (simp add: get_file_color_def fc)
  }
  {
    assume "p \<notin> fst ` set (entries_by_file self)"
    then have n: "map_of (zip ?ks ?vs) p = None"
      using map_of_zip_is_None [OF len, of p] by simp
    show "get_file_color self p = []"
      unfolding get_file_color_def fc n by simp
  }
qed

text \<open>
  C9. After a successful scan the mapping of the manager is the result of the scanner,
  in its order, with distinct files; the file at position \<open>i\<close> of that order (counted
  from 0) has the colour at position \<open>i mod 7\<close> of the palette \<open>COLORS\<close> of 7 colours;
  and \<open>get_file_color\<close> returns the empty string for every path that is not a key of
  the mapping.
\<close>

theorem scan_for_links_colors:
  assumes "scan_for_links factory fs self root_path recursive = (Inr n, self')"
  shows "(\<exists>printed. scan_directory factory fs
                      (case root_path of None \<Rightarrow> cwd fs | Some r \<Rightarrow> r) recursive =
                    Inr (get_entries_by_file self', printed)) \<and>
         distinct (map fst (get_entries_by_file self')) \<and>
         length COLORS = 7 \<and>
         (\<forall>i<length (get_entries_by_file self').
            get_file_color self' (fst (get_entries_by_file self' ! i)) = COLORS ! (i mod 7)) \<and>
         (\<forall>p. p \<notin> fst ` set (get_entries_by_file self') \<longrightarrow> get_file_color self' p = [])"
proof -
  let ?root = "case root_path of None \<Rightarrow> cwd fs | Some r \<Rightarrow> r"
  have inv: "invariant self'"
    using invariant_scan_for_links [of factory fs self root_path recursive] assms by simp
  have scan: "\<exists>printed. scan_directory factory fs ?root recursive =
                Inr (get_entries_by_file self', printed)"
  proof (cases "scan_directory factory fs ?root recursive")
    case (Inl e)
    from scan_for_links_Inl [OF this, of self] assms show ?thesis by simp
  next
    case (Inr r)
    obtain fe printed where r: "r = (fe, printed)" by (cases r)
    from Inr r scan_for_links_Inr [of factory fs root_path recursive fe printed self] assms
    have "entries_by_file self' = fe" by auto
    with Inr r show ?thesis by (simp add: get_entries_by_file_def)
  qed
  from inv have d: "distinct (map fst (get_entries_by_file self'))"
    by (simp add: invariant_def get_entries_by_file_def)
  from scan d invariant_colors [OF inv] length_COLORS show ?thesis
    by (simp add: get_entries_by_file_def)
qed

theorem scan_for_links_colors_witness:
  "get_file_color manager_d ''d/a.dokk'' = CHR 0x1B # ''[91m'' \<and>
   get_file_color manager_d ''d/b.dokk'' = CHR 0x1B # ''[92m'' \<and>
   get_file_color manager_d ''d/bad.dokk'' = []"
proof -
  note t = scan_for_links_colors [OF demo_scan_for_links(1)]
  have ebf: "get_entries_by_file manager_d =
      [(''d/a.dokk'', [entry_X]), (''d/b.dokk'', [entry_Y])]"
    by (simp add: get_entries_by_file_def manager_d_def)
  from t have c: "\<forall>i<length (get_entries_by_file manager_d).
            get_file_color manager_d (fst (get_entries_by_file manager_d ! i)) = COLORS ! (i mod 7)"
    and e: "\<forall>p. p \<notin> fst ` set (get_entries_by_file manager_d) \<longrightarrow> get_file_color manager_d p = []"
    by blast+
  from c [rule_format, of 0] have 0: "get_file_color manager_d ''d/a.dokk'' = CHR 0x1B # ''[91m''"
    unfolding ebf by (simp add: COLORS_def)
  from c [rule_format, of 1] have 1: "get_file_color manager_d ''d/b.dokk'' = CHR 0x1B # ''[92m''"
    unfolding ebf by (simp add: COLORS_def)
  from e [rule_format, of "''d/bad.dokk''"] have 2: "get_file_color manager_d ''d/bad.dokk'' = []"
    unfolding ebf by simp
  from 0 1 2 show ?thesis by simp
qed

lemma collect_domains_eq:
  "collect_domains ok es domains =
     domains \<union> {lower (netloc r) | e r. e \<in> set es \<and> urlparse ok (url e) = Inr r \<and> netloc r \<noteq> []}"
proof (induction es arbitrary: domains)
  case Nil
  then show ?case by simp
next
  case (Cons e es)
  show ?case
  proof (cases "urlparse ok (url e)")
    case (Inl err)
    with Cons [of domains] show ?thesis by auto
  next
    case (Inr r)
    show ?thesis
    proof (cases "netloc r = []")
      case True
      with Inr Cons [of domains] show ?thesis by auto
    next
      case False
      with Inr Cons [of "insert (lower (netloc r)) domains"] show ?thesis by auto
    qed
  qed
qed

lemma invariant_empty:
  assumes "invariant self" and "entries self = []"
  shows "entries_by_file self = []"
proof (cases "entries_by_file self")
  case Nil
  then show ?thesis .
next
  case (Cons x xs)
  with assms have "snd x \<noteq> []" "snd x @ concat (map snd xs) = []"
    by (auto simp: invariant_def)
  then show ?thesis by simp
qed

text \<open>
  C6, as the code has it. In every reachable state, \<open>get_statistics\<close> returns as
  \<open>total_links\<close> the number of entries, as \<open>total_files\<close> the number of files of the
  mapping, and as \<open>unique_domains\<close> the number of distinct lower-cased network
  locations of the entries: the \<open>netloc\<close> that \<open>urlparse\<close> gives, which is the host
  together with any user information and port, with \<open>A\<close> to \<open>Z\<close> turned into \<open>a\<close> to
  \<open>z\<close>. An entry whose URL does not parse or has an empty network location adds
  nothing to that set and is still counted in \<open>total_links\<close>. The three fields are 0
  when there are no entries: before any scan, and after a scan that found none.
\<close>

theorem get_statistics_counts:
  assumes "reachable self"
  shows "total_links (get_statistics ok self) = length (get_all_entries self) \<and>
         total_files (get_statistics ok self) = length (get_entries_by_file self) \<and>
         unique_domains (get_statistics ok self) =
           card {lower (netloc r) | e r.
                   e \<in> set (get_all_entries self) \<and> urlparse ok (url e) = Inr r \<and> netloc r \<noteq> []} \<and>
         lower ''ABCDEFGHIJKLMNOPQRSTUVWXYZ'' = ''abcdefghijklmnopqrstuvwxyz'' \<and>
         lower ''abcdefghijklmnopqrstuvwxyz0123456789.-:@[]'' =
           ''abcdefghijklmnopqrstuvwxyz0123456789.-:@[]'' \<and>
         (get_all_entries self = [] \<longrightarrow>
            get_statistics ok self = \<lparr>total_links = 0, total_files = 0, unique_domains = 0\<rparr>) \<and>
         get_statistics ok LinkManager_init =
           \<lparr>total_links = 0, total_files = 0, unique_domains = 0\<rparr>"
proof -
  have up: "lower ''ABCDEFGHIJKLMNOPQRSTUVWXYZ'' = ''abcdefghijklmnopqrstuvwxyz''"
    by code_simp
  have low: "lower ''abcdefghijklmnopqrstuvwxyz0123456789.-:@[]'' =
           ''abcdefghijklmnopqrstuvwxyz0123456789.-:@[]''"
    by code_simp
  show ?thesis
  proof (cases "entries self = []")
    case True
    from reachable_invariant [OF assms] True have "entries_by_file self = []"
      by (rule invariant_empty)
    with True up low show ?thesis
      by (simp add: get_statistics_def get_all_entries_def get_entries_by_file_def
          LinkManager_init_def)
  next
    case False
    with up low show ?thesis
      by (simp add: get_statistics_def get_all_entries_def get_entries_by_file_def
          LinkManager_init_def collect_domains_eq)
  qed
qed

lemma demo_statistics:
  "get_statistics any_bracketed_host manager_e =
     \<lparr>total_links = 2, total_files = 2, unique_domains = 1\<rparr>"
  "get_statistics any_bracketed_host manager_d =
     \<lparr>total_links = 2, total_files = 2, unique_domains = 2\<rparr>"
  "get_statistics any_bracketed_host manager_u =
     \<lparr>total_links = 2, total_files = 1, unique_domains = 1\<rparr>"
  by code_simp+

theorem get_statistics_counts_witness:
  "lower ''X.Test'' = ''x.test'' \<and>
   total_links (get_statistics any_bracketed_host manager_u) = 2 \<and>
   total_files (get_statistics any_bracketed_host manager_u) = 1 \<and>
   card {lower (netloc r) | e r.
           e \<in> set (get_all_entries manager_u) \<and>
           urlparse any_bracketed_host (url e) = Inr r \<and> netloc r \<noteq> []} = 1 \<and>
   total_links (get_statistics any_bracketed_host manager_e) = 2 \<and>
   total_files (get_statistics any_bracketed_host manager_e) = 2 \<and>
   card {lower (netloc r) | e r.
           e \<in> set (get_all_entries manager_e) \<and>
           urlparse any_bracketed_host (url e) = Inr r \<and> netloc r \<noteq> []} = 1"
proof -
  note u = get_statistics_counts [OF reachable_demo(4), of any_bracketed_host]
  note e = get_statistics_counts [OF reachable_demo(2), of any_bracketed_host]
  have l: "lower ''X.Test'' = ''x.test''" by code_simp
  from u have 1: "total_links (get_statistics any_bracketed_host manager_u) = 2 \<and>
      total_files (get_statistics any_bracketed_host manager_u) = 1 \<and>
      card {lower (netloc r) | e r.
           e \<in> set (get_all_entries manager_u) \<and>
           urlparse any_bracketed_host (url e) = Inr r \<and> netloc r \<noteq> []} = 1"
    by (simp add: demo_statistics)
  from e have 2: "total_links (get_statistics any_bracketed_host manager_e) = 2 \<and>
      total_files (get_statistics any_bracketed_host manager_e) = 2 \<and>
      card {lower (netloc r) | e r.
           e \<in> set (get_all_entries manager_e) \<and>
           urlparse any_bracketed_host (url e) = Inr r \<and> netloc r \<noteq> []} = 1"
    by (simp add: demo_statistics)
  from l 1 2 show ?thesis by (intro conjI) simp_all
qed

text \<open>
  C6 as stated fails: the three entries of \<open>manager_h\<close>, the manager after scanning
  \<open>h\<close>, have one host component, \<open>x.test\<close>, and \<open>unique_domains\<close> is 3, because the
  port and the user information are counted with the host.
\<close>

theorem get_statistics_counts_port_and_user:
  "scan_for_links DokkParserFactory_init demo_fs LinkManager_init (Some ''h'') True =
     (Inr 3, manager_h) \<and>
   get_all_entries manager_h = [entry_1, entry_2, entry_3] \<and>
   urlparse any_bracketed_host (url entry_1) = Inr \<lparr>scheme = ''http'', netloc = ''x.test''\<rparr> \<and>
   urlparse any_bracketed_host (url entry_2) = Inr \<lparr>scheme = ''http'', netloc = ''x.test:80''\<rparr> \<and>
   urlparse any_bracketed_host (url entry_3) = Inr \<lparr>scheme = ''http'', netloc = ''user@x.test''\<rparr> \<and>
   hostname ''x.test'' = ''x.test'' \<and>
   hostname ''x.test:80'' = ''x.test'' \<and>
   hostname ''user@x.test'' = ''x.test'' \<and>
   unique_domains (get_statistics any_bracketed_host manager_h) = 3"
  by code_simp

lemma exported_entries_export:
  "exported_entries (export_to_json self) =
     concat (map (\<lambda>fe. map entry_json (snd fe)) (entries_by_file self))"
  by (simp add: exported_entries_def export_to_json_def json_member_def json_items_def
      file_json_def comp_def)

text \<open>
  C7. In every reachable state, the \<open>entries\<close> arrays of the elements of the \<open>files\<close>
  array of the JSON export, put one after the other, have as many items as
  \<open>total_links\<close> of \<open>get_statistics\<close>, which is also the field \<open>total_entries\<close> of the
  object \<open>scan_info\<close> of the export.
\<close>

theorem export_to_json_total_entries:
  assumes "reachable self"
  shows "length (exported_entries (export_to_json self)) =
           total_links (get_statistics ok self) \<and>
         json_member ''total_entries'' (json_member ''scan_info'' (export_to_json self)) =
           JInt (int (total_links (get_statistics ok self)))"
proof -
  from reachable_invariant [OF assms]
  have e: "entries self = concat (map snd (entries_by_file self))"
    by (simp add: invariant_def)
  have "length (exported_entries (export_to_json self)) =
          length (concat (map snd (entries_by_file self)))"
    by (simp add: exported_entries_export length_concat comp_def)
  with e have 1: "length (exported_entries (export_to_json self)) = length (entries self)"
    by simp
  have 2: "total_links (get_statistics ok self) = length (entries self)"
    by (simp add: get_statistics_def)
  have 3: "json_member ''total_entries'' (json_member ''scan_info'' (export_to_json self)) =
           JInt (int (length (entries self)))"
    by (simp add: export_to_json_def json_member_def)
  from 1 2 3 show ?thesis by simp
qed

theorem export_to_json_total_entries_witness:
  "length (exported_entries (export_to_json manager_d)) = 2 \<and>
   total_links (get_statistics any_bracketed_host manager_d) = 2 \<and>
   json_member ''total_entries'' (json_member ''scan_info'' (export_to_json manager_d)) = JInt 2"
  using export_to_json_total_entries [OF reachable_demo(1), of any_bracketed_host]
  by (simp add: demo_statistics)

lemma urlparse_http_scheme:
  assumes "startswith u ''http://'' \<or> startswith u ''https://''"
    and "urlparse ok u = Inr r"
  shows "scheme r = ''http'' \<or> scheme r = ''https''"
proof -
  from assms(1) consider rest where "u = ''http://'' @ rest" | rest where "u = ''https://'' @ rest"
    by (auto simp: startswith_def prefix_def)
  then show ?thesis
  proof cases
    case 1
    with assms(2) show ?thesis
      by (auto simp: urlparse_def WHATWG_C0_CONTROL_OR_SPACE_def UNSAFE_URL_BYTES_TO_REMOVE_def
          ascii_alpha_def scheme_chars_def lower_def char_lower_def Let_def
          split: if_splits)
  next
    case 2
    with assms(2) show ?thesis
      by (auto simp: urlparse_def WHATWG_C0_CONTROL_OR_SPACE_def UNSAFE_URL_BYTES_TO_REMOVE_def
          ascii_alpha_def scheme_chars_def lower_def char_lower_def Let_def
          split: if_splits)
  qed
qed


lemma constructed_url:
  assumes "DokkEntry_init d u p = Inr e"
  shows "startswith (url e) ''http://'' \<or> startswith (url e) ''https://''"
proof -
  from assms have "\<exists>e. DokkEntry_init d u p = Inr e" by blast
  then have "startswith (strip u) ''http://'' \<or> startswith (strip u) ''https://''"
    by (simp add: DokkEntry_init_Inr_iff)
  with DokkEntry_init_Inr_fields [OF assms] show ?thesis by simp
qed

lemma validate_links_constructed:
  assumes "\<forall>e\<in>set es. \<exists>d u p. DokkEntry_init d u p = Inr e"
  shows "(\<forall>x\<in>set (validate_links ok es). snd x \<noteq> InvalidScheme) \<and>
         (validate_links ok es = [] \<longleftrightarrow>
            (\<forall>e\<in>set es. \<exists>r. urlparse ok (url e) = Inr r \<and> netloc r \<noteq> []))"
  using assms
proof (induction es)
  case Nil
  then show ?case by simp
next
  case (Cons e es)
  then obtain d u p where c: "DokkEntry_init d u p = Inr e" by auto
  from Cons have IH: "(\<forall>x\<in>set (validate_links ok es). snd x \<noteq> InvalidScheme) \<and>
         (validate_links ok es = [] \<longleftrightarrow>
            (\<forall>e\<in>set es. \<exists>r. urlparse ok (url e) = Inr r \<and> netloc r \<noteq> []))"
    by simp
  show ?case
  proof (cases "urlparse ok (url e)")
    case (Inl err)
    with IH show ?thesis by simp
  next
    case (Inr r)
    from urlparse_http_scheme [OF constructed_url [OF c] Inr]
    have s: "scheme r = ''http'' \<or> scheme r = ''https''" .
    then have ok: "\<not> (scheme r = [] \<or> scheme r \<notin> set [''http'', ''https''])" by auto
    show ?thesis
    proof (cases "netloc r = []")
      case True
      with Inr ok IH show ?thesis by simp
    next
      case False
      with Inr ok IH show ?thesis by simp
    qed
  qed
qed

text \<open>
  C3, as the code has it. When every entry of the manager was built by the
  constructor, \<open>validate_all_links\<close> never reports an invalid scheme, and it returns
  the empty list if and only if the URL of every entry parses and has a non-empty
  host. The constructor checks the prefix \<open>http://\<close> or \<open>https://\<close> only, not that a
  host follows it.
\<close>

theorem validate_all_links_constructed:
  assumes "\<forall>e\<in>set (get_all_entries self). \<exists>d u p. DokkEntry_init d u p = Inr e"
  shows "(\<forall>x\<in>set (validate_all_links ok self). snd x \<noteq> InvalidScheme) \<and>
         (validate_all_links ok self = [] \<longleftrightarrow>
            (\<forall>e\<in>set (get_all_entries self).
               \<exists>r. urlparse ok (url e) = Inr r \<and> netloc r \<noteq> []))"
  using validate_links_constructed [of "entries self" ok] assms
  by (simp add: validate_all_links_def get_all_entries_def)

lemma demo_constructed:
  "DokkEntry_init ''X'' ''https://x.test'' ''d/a.dokk'' = Inr entry_X"
  "DokkEntry_init ''Y'' ''https://y.test'' ''d/b.dokk'' = Inr entry_Y"
  "DokkEntry_init ''N'' ''http://'' ''e/n.dokk'' = Inr entry_N"
  "DokkEntry_init ''a'' ''http://x'' ''e/t.dokk'' = Inr entry_t"
  by code_simp+

theorem validate_all_links_constructed_witness:
  "get_all_entries manager_d = [entry_X, entry_Y] \<and>
   DokkEntry_init ''X'' ''https://x.test'' ''d/a.dokk'' = Inr entry_X \<and>
   DokkEntry_init ''Y'' ''https://y.test'' ''d/b.dokk'' = Inr entry_Y \<and>
   validate_all_links any_bracketed_host manager_d = []"
proof -
  have all: "get_all_entries manager_d = [entry_X, entry_Y]"
    by (simp add: get_all_entries_def manager_d_def)
  have h: "\<forall>e\<in>set (get_all_entries manager_d). \<exists>d u p. DokkEntry_init d u p = Inr e"
    unfolding all using demo_constructed(1,2) by auto
  have x: "urlparse any_bracketed_host (url entry_X) = Inr \<lparr>scheme = ''https'', netloc = ''x.test''\<rparr>"
    by code_simp
  have y: "urlparse any_bracketed_host (url entry_Y) = Inr \<lparr>scheme = ''https'', netloc = ''y.test''\<rparr>"
    by code_simp
  have hosts: "\<forall>e\<in>set (get_all_entries manager_d).
      \<exists>r. urlparse any_bracketed_host (url e) = Inr r \<and> netloc r \<noteq> []"
    unfolding all using x y by simp
  from validate_all_links_constructed [OF h, of any_bracketed_host] hosts
  have "validate_all_links any_bracketed_host manager_d = []" by blast
  with all demo_constructed(1,2) show ?thesis by (intro conjI)
qed

text \<open>
  C3 as stated fails: the entries of \<open>manager_e\<close>, the manager after scanning \<open>e\<close>, were
  built by the constructor, and \<open>validate_all_links\<close> reports the one with the URL
  \<open>http://\<close> for its missing domain.
\<close>

theorem validate_all_links_flags_constructed:
  "scan_for_links DokkParserFactory_init demo_fs manager_d (Some ''e'') False = (Inr 2, manager_e) \<and>
   get_all_entries manager_e = [entry_t, entry_N] \<and>
   DokkEntry_init ''a'' ''http://x'' ''e/t.dokk'' = Inr entry_t \<and>
   DokkEntry_init ''N'' ''http://'' ''e/n.dokk'' = Inr entry_N \<and>
   validate_all_links any_bracketed_host manager_e = [(entry_N, MissingDomain)]"
  by code_simp

end
